theory Spec2Isabelle
  imports Main
begin

section \<open>The m2u helper layer (m2uHelper.h)\<close>

text \<open>
  The helper functions of namespace \<open>m2uHelper\<close> are embedded as HOL functions. What the
  host engine provides (its string and name types, the object table of the level, the
  rename primitive, the text parsers) is not part of the repository; it is either
  modelled from its contract or taken as a field of the record \<open>Host\<close>.
\<close>

subsection \<open>Host strings\<close>

text \<open>
  Modelled from the spec: the host's string slicing \<open>FString::Mid(Start, Count)\<close>, which
  is not part of the repository. The host computes the end of the slice in unsigned
  32-bit arithmetic and clamps both ends to the string.
\<close>

definition Clamp :: "int \<Rightarrow> int \<Rightarrow> int \<Rightarrow> int" where
  "Clamp X Lo Hi = (if X < Lo then Lo else if X < Hi then X else Hi)"

definition Mid :: "string \<Rightarrow> int \<Rightarrow> int \<Rightarrow> string" where
  "Mid Str Start Count =
     (let Len = int (length Str);
          End = (Start + Count) mod 2 ^ 32;
          Start' = Clamp (Start mod 2 ^ 32) 0 Len;
          End' = Clamp End Start' Len
      in take (nat (End' - Start')) (drop (nat Start') Str))"

text \<open>
  Modelled from the spec: the host's \<open>FString::ParseIntoArray(&Result, Delim, CullEmpty)\<close>
  for a delimiter of one character, which is not part of the repository. The text is cut
  at every delimiter; empty pieces are kept unless \<open>CullEmpty\<close> is set; an empty text
  has no pieces at all.
\<close>

fun pieces :: "char \<Rightarrow> string \<Rightarrow> string list" where
  "pieces d [] = [[]]"
| "pieces d (c # cs) =
     (if c = d then [] # pieces d cs
      else (case pieces d cs of [] \<Rightarrow> [[c]] | w # ws \<Rightarrow> (c # w) # ws))"

definition ParseIntoArray :: "string \<Rightarrow> char \<Rightarrow> bool \<Rightarrow> string list" where
  "ParseIntoArray Str Delim CullEmpty =
     (if Str = [] then []
      else if CullEmpty then filter (\<lambda>w. w \<noteq> []) (pieces Delim Str)
      else pieces Delim Str)"

subsection \<open>ParseList\<close>

text \<open>
  \<open>ParseList\<close> (m2uHelper.h, lines 21-27): chop the first and the last character, then
  cut at the commas, keeping empty items.
\<close>

definition ParseList :: "string \<Rightarrow> string list" where
  "ParseList Str =
     (let Chopped = Mid Str 1 (int (length Str) - 2)
      in ParseIntoArray Chopped (CHR '','') False)"

text \<open>The textual form of a list of items: the items joined by commas, in brackets.\<close>

fun join_commas :: "string list \<Rightarrow> string" where
  "join_commas [] = []"
| "join_commas [w] = w"
| "join_commas (w # v # ws) = w @ CHR '','' # join_commas (v # ws)"

definition list_literal :: "string list \<Rightarrow> string" where
  "list_literal items = CHR ''['' # join_commas items @ '']''"

subsection \<open>Host names\<close>

text \<open>
  Modelled from the spec: the host's identifier type \<open>FName\<close>, which is not part of
  the repository: a base name with an optional numeric suffix. The number is stored
  internally, \<open>0\<close> for "no suffix" and \<open>n + 1\<close> for the suffix \<open>_n\<close>; \<open>GetNumber\<close> and
  \<open>SetNumber\<close> read and write the internal number. The host keeps it in a signed
  32-bit integer; the model keeps it in a natural number and agrees with the host as
  long as the number is at most \<open>MAX_int32\<close>. Names are compared ignoring the case of
  the base name. The host's limit on the length of a name is not modelled.
\<close>

record FName =
  NameEntry :: string
  GetNumber :: nat

definition SetNumber :: "FName \<Rightarrow> nat \<Rightarrow> FName" where
  "SetNumber N k = N\<lparr>GetNumber := k\<rparr>"

definition ToUpper :: "char \<Rightarrow> char" where
  "ToUpper c =
     (case map_of (zip ''abcdefghijklmnopqrstuvwxyz'' ''ABCDEFGHIJKLMNOPQRSTUVWXYZ'') c of
        Some u \<Rightarrow> u
      | None \<Rightarrow> c)"

definition FName_eq :: "FName \<Rightarrow> FName \<Rightarrow> bool" where
  "FName_eq A B \<longleftrightarrow>
     map ToUpper (NameEntry A) = map ToUpper (NameEntry B) \<and> GetNumber A = GetNumber B"

definition NAME_None :: FName where
  "NAME_None = \<lparr>NameEntry = ''None'', GetNumber = 0\<rparr>"

definition MAX_int32 :: int where
  "MAX_int32 = 2147483647"

definition IsDigit :: "char \<Rightarrow> bool" where
  "IsDigit c \<longleftrightarrow> c \<in> set ''0123456789''"

text \<open>The digit of a number below ten; \<open>decimal\<close> asks for no other.\<close>

definition DigitChar :: "nat \<Rightarrow> char" where
  "DigitChar d = ''0123456789'' ! d"

definition DigitValue :: "char \<Rightarrow> nat" where
  "DigitValue c =
     (case map_of (zip ''0123456789'' [0, 1, 2, 3, 4, 5, 6, 7, 8, 9]) c of
        Some d \<Rightarrow> d
      | None \<Rightarrow> 0)"

fun decimal :: "nat \<Rightarrow> string" where
  "decimal n = (if n < 10 then [DigitChar n] else decimal (n div 10) @ [DigitChar (n mod 10)])"

definition nat_of_decimal :: "string \<Rightarrow> nat" where
  "nat_of_decimal s = foldl (\<lambda>a c. 10 * a + DigitValue c) 0 s"

text \<open>
  The host splits a trailing \<open>_digits\<close> off a name given as text, unless the digits have
  a leading zero (\<open>Rocket_04\<close>), the number does not fit 32 bits, or the text consists
  of digits only.
\<close>

definition SplitNameWithCheck :: "string \<Rightarrow> (string \<times> nat) option" where
  "SplitNameWithCheck OldName =
     (let Digits = rev (takeWhile IsDigit (rev OldName));
          Front = take (length OldName - length Digits) OldName
      in if Digits = [] then None
         else if Front = [] then None
         else if last Front \<noteq> CHR ''_'' then None
         else if hd Digits = CHR ''0'' \<and> length Digits \<noteq> 1 then None
         else if MAX_int32 < int (nat_of_decimal Digits) then None
         else Some (butlast Front, nat_of_decimal Digits))"

text \<open>
  The constructor \<open>FName(const TCHAR*)\<close>: the suffix is split off, and an empty name is
  the host's "no name" sentinel \<open>NAME_None\<close>.
\<close>

definition FName_Init :: "string \<Rightarrow> FName" where
  "FName_Init InName =
     (case SplitNameWithCheck InName of
        Some (Name, Number) \<Rightarrow>
          if Name = [] then NAME_None else \<lparr>NameEntry = Name, GetNumber = Number + 1\<rparr>
      | None \<Rightarrow>
          if InName = [] then NAME_None else \<lparr>NameEntry = InName, GetNumber = 0\<rparr>)"

definition ToString :: "FName \<Rightarrow> string" where
  "ToString N =
     (if GetNumber N = 0 then NameEntry N
      else NameEntry N @ ''_'' @ decimal (GetNumber N - 1))"

definition M2U_GENERATED_NAME :: string where
  "M2U_GENERATED_NAME = ''m2uGeneratedName''"

subsection \<open>Actors and the host\<close>

text \<open>
  What an actor notifies the host of, in the order of the calls.
\<close>

datatype Notification =
  InvalidateLightingCache
| PostEditMove bool
| CheckDefaultSubobjects
| MarkPackageDirty

text \<open>
  The fields of an actor that the helpers read or write: its identifier (\<open>GetFName\<close>),
  its display label, its relative transform, and the notifications it has received.
  Vectors (\<open>'v\<close>) and rotations (\<open>'r\<close>) are the host's; the model does not look into
  them.
\<close>

record ('v, 'r) Actor =
  GetFName :: FName
  ActorLabel :: string
  RelativeLocation :: 'v
  RelativeRotation :: 'r
  RelativeScale3D :: 'v
  Notifications :: "Notification list"

type_synonym EObjectFlags = nat

text \<open>
  The host at the time of a call. \<open>INVALID_OBJECTNAME_CHARACTERS\<close> is the host's table
  of forbidden characters (without its terminating NUL). \<open>LevelObjects\<close> are the
  identifiers of the objects of the current level. \<open>Actor->Rename\<close> is two fields:
  \<open>Rename_Test\<close> is the call with \<open>REN_Test\<close>, which only reports whether the rename is
  possible, and \<open>Rename\<close> is the committing call, which gives the actor as the host leaves
  it. \<open>GetAssetFromPath\<close> (m2uAssetHelper.h) and the factory \<open>AddActorForAsset\<close> return
  \<open>None\<close> for a null pointer.
\<close>

record ('v, 'r, 'a) Host =
  INVALID_OBJECTNAME_CHARACTERS :: string
  LevelObjects :: "FName list"
  Rename_Test :: "('v, 'r) Actor \<Rightarrow> string \<Rightarrow> bool"
  Rename :: "('v, 'r) Actor \<Rightarrow> string \<Rightarrow> ('v, 'r) Actor"
  GetFVECTORSpaceDelimited :: "string \<Rightarrow> 'v"
  GetFROTATORSpaceDelimited :: "string \<Rightarrow> 'r"
  GetAssetFromPath :: "string \<Rightarrow> 'a option"
  AddActorForAsset ::
    "'a \<Rightarrow> 'v \<Rightarrow> bool \<Rightarrow> bool \<Rightarrow> EObjectFlags \<Rightarrow> FName \<Rightarrow> ('v, 'r) Actor option"

text \<open>
  Modelled from the spec: the host's \<open>SetActorLabel\<close>, which is not part of the
  repository: it sets the display label and leaves the identifier alone.
\<close>

definition SetActorLabel :: "('v, 'r) Actor \<Rightarrow> string \<Rightarrow> ('v, 'r) Actor" where
  "SetActorLabel A Label = A\<lparr>ActorLabel := Label\<rparr>"

definition SetActorRelativeLocation :: "('v, 'r) Actor \<Rightarrow> 'v \<Rightarrow> ('v, 'r) Actor" where
  "SetActorRelativeLocation A Loc = A\<lparr>RelativeLocation := Loc\<rparr>"

definition SetActorRelativeRotation :: "('v, 'r) Actor \<Rightarrow> 'r \<Rightarrow> ('v, 'r) Actor" where
  "SetActorRelativeRotation A Rot = A\<lparr>RelativeRotation := Rot\<rparr>"

definition SetActorRelativeScale3D :: "('v, 'r) Actor \<Rightarrow> 'v \<Rightarrow> ('v, 'r) Actor" where
  "SetActorRelativeScale3D A Scale = A\<lparr>RelativeScale3D := Scale\<rparr>"

definition Notify :: "('v, 'r) Actor \<Rightarrow> Notification \<Rightarrow> ('v, 'r) Actor" where
  "Notify A n = A\<lparr>Notifications := Notifications A @ [n]\<rparr>"

text \<open>
  What the source cannot return from: a read behind the end of the text, and a call
  through a null pointer.
\<close>

datatype Fault = ReadBeyondText | NullDereference

subsection \<open>Removing the forbidden characters\<close>

text \<open>
  Lines 121-127 of \<open>RenameActor\<close> and lines 192-201 of \<open>GetFreeName\<close>: for every
  character of the table, \<open>ReplaceInline\<close> removes its occurrences from the name. The
  host's \<open>ReplaceInline\<close> ignores case unless told otherwise.
\<close>

definition ReplaceInline_char :: "char \<Rightarrow> string \<Rightarrow> string" where
  "ReplaceInline_char TestChar Str = filter (\<lambda>c. ToUpper c \<noteq> ToUpper TestChar) Str"

definition GeneratedName :: "string \<Rightarrow> string \<Rightarrow> string" where
  "GeneratedName Invalid Name = foldl (\<lambda>G TestChar. ReplaceInline_char TestChar G) Name Invalid"

subsection \<open>RenameActor\<close>

text \<open>Lines 135-144: the name to rename to, with the marker in place of \<open>NAME_None\<close>.\<close>

definition RenameActor_NewFName :: "string \<Rightarrow> FName" where
  "RenameActor_NewFName G =
     (let NewFName = FName_Init G
      in if FName_eq NewFName NAME_None then FName_Init M2U_GENERATED_NAME else NewFName)"

text \<open>
  Lines 149-174: nothing to do when the actor has that name already; otherwise a test
  rename, and only when that succeeds the rename itself, after which the label is set
  to the text of the resulting name.
\<close>

definition RenameActor_Rename ::
  "('v, 'r, 'a) Host \<Rightarrow> ('v, 'r) Actor \<Rightarrow> FName \<Rightarrow> ('v, 'r) Actor \<times> FName" where
  "RenameActor_Rename h A NewFName =
     (if FName_eq (GetFName A) NewFName then (A, GetFName A)
      else
        let bCanRename = Rename_Test h A (ToString NewFName)
        in if bCanRename then
             let A1 = Rename h A (ToString NewFName);
                 ResultFName = GetFName A1
             in (SetActorLabel A1 (ToString ResultFName), ResultFName)
           else (A, GetFName A))"

text \<open>
  \<open>RenameActor\<close> (lines 117-175). The result is the actor after the call and the
  returned name.
\<close>

definition RenameActor ::
  "('v, 'r, 'a) Host \<Rightarrow> ('v, 'r) Actor \<Rightarrow> string \<Rightarrow> ('v, 'r) Actor \<times> FName" where
  "RenameActor h A Name =
     (let G = GeneratedName (INVALID_OBJECTNAME_CHARACTERS h) Name
      in if G = [] then (A, GetFName A)
         else RenameActor_Rename h A (RenameActor_NewFName G))"

subsection \<open>GetFreeName\<close>

text \<open>Lines 203-207: the first name to probe.\<close>

definition GetFreeName_TestName :: "string \<Rightarrow> FName" where
  "GetFreeName_TestName G =
     (let TestName = FName_Init G
      in if FName_eq TestName NAME_None then FName_Init M2U_GENERATED_NAME else TestName)"

text \<open>
  Modelled from the spec: the host's lookup \<open>StaticFindObjectFastInternal\<close> in the
  current level, which is not part of the repository: the first object of the level
  with that name, if any.
\<close>

definition StaticFindObjectFastInternal :: "FName list \<Rightarrow> FName \<Rightarrow> FName option" where
  "StaticFindObjectFastInternal Outer TestName = find (\<lambda>Obj. FName_eq Obj TestName) Outer"

text \<open>
  Lines 215-233: the number goes up until no object of the level has the name. \<open>Outer\<close>
  is the current level, never \<open>ANY_PACKAGE\<close>, so only the second lookup of the source
  is ever made. Line 232 adds 1 to the host's 32-bit number, the model adds 1 to a
  natural number: the two are the same addition up to \<open>MAX_int32\<close>, which the loop
  does not pass when the number it starts from plus the number of objects of the level
  is at most \<open>MAX_int32\<close>; beyond that the addition of the source overflows and the
  model does not follow it. The loop ends because the level is finite: \<open>NamesFrom\<close> are the objects
  it can still run into, those with the base name of \<open>TestName\<close> and a number not
  below its number, and every turn of the loop leaves one of them behind.
\<close>

definition NamesFrom :: "FName list \<Rightarrow> FName \<Rightarrow> FName list" where
  "NamesFrom Outer TestName =
     filter (\<lambda>Obj. map ToUpper (NameEntry Obj) = map ToUpper (NameEntry TestName)
                   \<and> GetNumber TestName \<le> GetNumber Obj) Outer"

function GetFreeName_loop :: "FName list \<Rightarrow> FName \<Rightarrow> FName" where
  "GetFreeName_loop Outer TestName =
     (if StaticFindObjectFastInternal Outer TestName = None then TestName
      else GetFreeName_loop Outer (SetNumber TestName (GetNumber TestName + 1)))"
  by pat_completeness auto

text \<open>\<open>GetFreeName\<close> (lines 188-236). It changes nothing; the result is the returned name.\<close>

definition GetFreeName :: "('v, 'r, 'a) Host \<Rightarrow> string \<Rightarrow> FName" where
  "GetFreeName h Name =
     (let G = GeneratedName (INVALID_OBJECTNAME_CHARACTERS h) Name;
          TestName = GetFreeName_TestName G;
          Outer = LevelObjects h
      in GetFreeName_loop Outer TestName)"

subsection \<open>SetActorTransformRelativeFromText\<close>

text \<open>
  Modelled from the spec: the host's \<open>FCString::Strfind\<close>, which is not part of the
  repository. The host describes it as "finds string in string, case insensitive,
  requires non-alphanumeric lead-in": it finds the first place where the marker stands,
  ignoring case, and not right after a letter or a digit; the result is the text from
  that place on.
\<close>

definition IsAlnum :: "char \<Rightarrow> bool" where
  "IsAlnum c \<longleftrightarrow> c \<in> set ''ABCDEFGHIJKLMNOPQRSTUVWXYZ0123456789''"

fun Strfind_scan :: "bool \<Rightarrow> string \<Rightarrow> string \<Rightarrow> string option" where
  "Strfind_scan Alnum [] Find = None"
| "Strfind_scan Alnum (c # Str) Find =
     (if \<not> Alnum \<and> ToUpper c = ToUpper (hd Find)
         \<and> map ToUpper (take (length Find - 1) Str) = map ToUpper (tl Find)
      then Some (c # Str)
      else Strfind_scan (IsAlnum (ToUpper c)) Str Find)"

definition Strfind :: "string \<Rightarrow> string \<Rightarrow> string option" where
  "Strfind Str Find = Strfind_scan False Str Find"

text \<open>
  \<open>Stream += 3\<close> (lines 264, 274, 284) skips the marker and the parenthesis without
  looking at them. A marker that ends the text leaves \<open>Stream\<close> behind the terminating
  NUL, and the parser then reads what is not the text.
\<close>

definition Skip3 :: "string \<Rightarrow> Fault + string" where
  "Skip3 Stream = (if length Stream < 3 then Inl ReadBeyondText else Inr (drop 3 Stream))"

definition then_do :: "Fault + 'x \<Rightarrow> ('x \<Rightarrow> Fault + 'y) \<Rightarrow> Fault + 'y" where
  "then_do r f = (case r of Inl e \<Rightarrow> Inl e | Inr x \<Rightarrow> f x)"

text \<open>Lines 260-268, 270-278 and 280-288: each marker is searched from the start of the text.\<close>

definition ApplyLocation ::
  "('v, 'r, 'a) Host \<Rightarrow> string \<Rightarrow> ('v, 'r) Actor \<Rightarrow> Fault + ('v, 'r) Actor" where
  "ApplyLocation h Str A =
     (case Strfind Str ''T='' of
        None \<Rightarrow> Inr A
      | Some Stream \<Rightarrow>
          then_do (Skip3 Stream)
            (\<lambda>Stream. Inr (SetActorRelativeLocation A (GetFVECTORSpaceDelimited h Stream))))"

definition ApplyRotation ::
  "('v, 'r, 'a) Host \<Rightarrow> string \<Rightarrow> ('v, 'r) Actor \<Rightarrow> Fault + ('v, 'r) Actor" where
  "ApplyRotation h Str A =
     (case Strfind Str ''R='' of
        None \<Rightarrow> Inr A
      | Some Stream \<Rightarrow>
          then_do (Skip3 Stream)
            (\<lambda>Stream. Inr (SetActorRelativeRotation A (GetFROTATORSpaceDelimited h Stream))))"

definition ApplyScale ::
  "('v, 'r, 'a) Host \<Rightarrow> string \<Rightarrow> ('v, 'r) Actor \<Rightarrow> Fault + ('v, 'r) Actor" where
  "ApplyScale h Str A =
     (case Strfind Str ''S='' of
        None \<Rightarrow> Inr A
      | Some Stream \<Rightarrow>
          then_do (Skip3 Stream)
            (\<lambda>Stream. Inr (SetActorRelativeScale3D A (GetFVECTORSpaceDelimited h Stream))))"

text \<open>Lines 290-295: the four notifications, whatever was found.\<close>

definition NotifyMoved :: "('v, 'r) Actor \<Rightarrow> ('v, 'r) Actor" where
  "NotifyMoved A =
     Notify (Notify (Notify (Notify A InvalidateLightingCache) (PostEditMove True))
       CheckDefaultSubobjects) MarkPackageDirty"

text \<open>\<open>SetActorTransformRelativeFromText\<close> (lines 254-297).\<close>

definition SetActorTransformRelativeFromText ::
  "('v, 'r, 'a) Host \<Rightarrow> ('v, 'r) Actor \<Rightarrow> string \<Rightarrow> Fault + ('v, 'r) Actor" where
  "SetActorTransformRelativeFromText h A Str =
     then_do (ApplyLocation h Str A) (\<lambda>A1.
     then_do (ApplyRotation h Str A1) (\<lambda>A2.
     then_do (ApplyScale h Str A2) (\<lambda>A3.
     Inr (NotifyMoved A3))))"

subsection \<open>AddNewActorFromAsset\<close>

text \<open>
  \<open>AddNewActorFromAsset\<close> (lines 316-341). \<open>InLevel\<close> is not used by the source. The
  actor that the factory returns is used without a check.
\<close>

definition AddNewActorFromAsset ::
  "('v, 'r, 'a) Host \<Rightarrow> string \<Rightarrow> 'l \<Rightarrow> FName \<Rightarrow> bool \<Rightarrow> 'v \<Rightarrow> EObjectFlags
   \<Rightarrow> Fault + ('v, 'r) Actor option" where
  "AddNewActorFromAsset h AssetPath InLevel Name bSelectActor Location ObjectFlags =
     (case GetAssetFromPath h AssetPath of
        None \<Rightarrow> Inr None
      | Some Asset \<Rightarrow>
          let Name' = (if FName_eq Name NAME_None then FName_Init ''GeneratedName'' else Name)
          in (case AddActorForAsset h Asset Location False bSelectActor ObjectFlags Name' of
                None \<Rightarrow> Inl NullDereference
              | Some A \<Rightarrow> Inr (Some (SetActorLabel A (ToString (GetFName A))))))"

subsection \<open>A sample host\<close>

text \<open>
  A small host to run the helpers on: the engine's table of forbidden characters
  (\<open>"' ,/.:|&!~\n\r\t@#(){}[]=;^%$`\<close>), a level with three objects, a rename that is
  possible exactly to the names no object of the level has, a parser that reads three
  space-delimited natural numbers, and a factory that knows one kind of asset.
\<close>

definition sample_INVALID_OBJECTNAME_CHARACTERS :: string where
  "sample_INVALID_OBJECTNAME_CHARACTERS =
     [CHR 0x22, CHR 0x27] @ '' ,/.:|&!~'' @ [CHR 0x0A, CHR 0x0D, CHR 0x09]
       @ ''@#(){}[]=;^%$'' @ [CHR 0x60]"

definition sample_LevelObjects :: "FName list" where
  "sample_LevelObjects =
     [\<lparr>NameEntry = ''Chair'', GetNumber = 6\<rparr>,
      \<lparr>NameEntry = ''Chair'', GetNumber = 7\<rparr>,
      \<lparr>NameEntry = ''Lamp'', GetNumber = 0\<rparr>]"

definition sample_vector :: "string \<Rightarrow> nat \<times> nat \<times> nat" where
  "sample_vector Stream =
     (case map (\<lambda>w. nat_of_decimal (takeWhile IsDigit w)) (pieces (CHR '' '') Stream) of
        x # y # z # _ \<Rightarrow> (x, y, z)
      | _ \<Rightarrow> (0, 0, 0))"

definition sample_Host :: "(nat \<times> nat \<times> nat, nat \<times> nat \<times> nat, string) Host" where
  "sample_Host =
     \<lparr>INVALID_OBJECTNAME_CHARACTERS = sample_INVALID_OBJECTNAME_CHARACTERS,
      LevelObjects = sample_LevelObjects,
      Rename_Test = (\<lambda>A NewName.
        StaticFindObjectFastInternal sample_LevelObjects (FName_Init NewName) = None),
      Rename = (\<lambda>A NewName. A\<lparr>GetFName := FName_Init NewName\<rparr>),
      GetFVECTORSpaceDelimited = sample_vector,
      GetFROTATORSpaceDelimited = sample_vector,
      GetAssetFromPath = (\<lambda>AssetPath.
        if AssetPath = ''/Game/Meshes/Chair'' then Some ''Chair''
        else if AssetPath = ''/Game/Sounds/Hum'' then Some ''Hum''
        else None),
      AddActorForAsset = (\<lambda>Asset Location bSilent bSelect Flags Name.
        if Asset = ''Chair'' then
          Some \<lparr>GetFName = Name, ActorLabel = ''StaticMeshActor'',
                RelativeLocation = Location, RelativeRotation = (0, 0, 0),
                RelativeScale3D = (1, 1, 1), Notifications = []\<rparr>
        else None)\<rparr>"

text \<open>
  The actor \<open>Chair_5\<close> of that level, with its label in step with its identifier, and
  rotated by \<open>(10, 20, 30)\<close>.
\<close>

definition sample_Actor :: "(nat \<times> nat \<times> nat, nat \<times> nat \<times> nat) Actor" where
  "sample_Actor =
     \<lparr>GetFName = \<lparr>NameEntry = ''Chair'', GetNumber = 6\<rparr>, ActorLabel = ''Chair_5'',
      RelativeLocation = (0, 0, 0), RelativeRotation = (10, 20, 30),
      RelativeScale3D = (1, 1, 1), Notifications = []\<rparr>"

section \<open>Properties\<close>

subsection \<open>ParseList\<close>

lemma pieces_not_Nil: "pieces d s \<noteq> []"
  by (induction s) (auto split: list.splits)

lemma pieces_no_delim: "d \<notin> set w \<Longrightarrow> pieces d w = [w]"
  by (induction w) auto

lemma pieces_append_delim:
  "d \<notin> set w \<Longrightarrow> pieces d (w @ d # rest) = w # pieces d rest"
  by (induction w) auto

lemma pieces_join_commas:
  "items \<noteq> [] \<Longrightarrow> \<forall>w \<in> set items. CHR '','' \<notin> set w \<Longrightarrow>
   pieces (CHR '','') (join_commas items) = items"
proof (induction items rule: join_commas.induct)
  case 1
  then show ?case by simp
next
  case (2 w)
  then show ?case by (simp add: pieces_no_delim)
next
  case (3 w v ws)
  then show ?case by (simp add: pieces_append_delim)
qed

lemma Mid_chops_brackets:
  assumes "length body + 2 < 2 ^ 31"
  shows "Mid (a # body @ [b]) 1 (int (length (a # body @ [b])) - 2) = body"
proof -
  have small: "int (length body) + 1 < 2 ^ 32"
    using assms by simp
  have e: "(1 + (int (length (a # body @ [b])) - 2)) mod 2 ^ 32 = int (length body) + 1"
    using small by simp
  show ?thesis
    unfolding Mid_def Let_def e by (simp add: Clamp_def)
qed

lemma ParseList_list_literal:
  assumes noc: "\<forall>w \<in> set items. CHR '','' \<notin> set w"
    and ne: "items \<noteq> [[]]"
    and len: "length (list_literal items) < 2 ^ 31"
  shows "ParseList (list_literal items) = items"
proof (cases "items = []")
  case True
  then show ?thesis
    by (simp add: ParseList_def list_literal_def Mid_def Clamp_def ParseIntoArray_def)
next
  case False
  have body: "Mid (list_literal items) 1 (int (length (list_literal items)) - 2)
      = join_commas items"
    unfolding list_literal_def
    using Mid_chops_brackets [of "join_commas items" "CHR ''[''" "CHR '']''"] len
    by (simp add: list_literal_def)
  have nonempty: "join_commas items \<noteq> []"
    using False ne by (cases items rule: join_commas.cases) auto
  show ?thesis
    using False nonempty noc
    by (simp add: ParseList_def body ParseIntoArray_def pieces_join_commas)
qed

text \<open>
  C9. \<open>ParseList\<close> of \<open>[a,b,,d]\<close> is the four items \<open>a\<close>, \<open>b\<close>, the empty item and \<open>d\<close>, in
  that order. In general, the bracketed, comma-separated text of a list of items that
  contain no comma decodes to that list, empty items included; the one list that has
  no text of its own is the list of a single empty item, since \<open>[]\<close> is the text of
  the empty list. Brackets inside the items do no harm. The text must fit the host's
  strings, whose length is a signed 32-bit number.
\<close>

theorem ParseList_decodes:
  "ParseList ''[a,b,,d]'' = [''a'', ''b'', '''', ''d''] \<and>
   ((\<forall>w \<in> set items. CHR '','' \<notin> set w) \<and> items \<noteq> [[]]
      \<and> length (list_literal items) < 2 ^ 31
    \<longrightarrow> ParseList (list_literal items) = items)"
proof
  show "ParseList ''[a,b,,d]'' = [''a'', ''b'', '''', ''d'']"
    by (simp add: ParseList_def Mid_def Clamp_def ParseIntoArray_def)
  show "(\<forall>w \<in> set items. CHR '','' \<notin> set w) \<and> items \<noteq> [[]]
      \<and> length (list_literal items) < 2 ^ 31
    \<longrightarrow> ParseList (list_literal items) = items"
    using ParseList_list_literal by blast
qed

theorem ParseList_decodes_witness:
  "list_literal [''x'', '''', ''y]z''] = ''[x,,y]z]'' \<and>
   ParseList ''[x,,y]z]'' = [''x'', '''', ''y]z'']"
  using ParseList_decodes [of "[''x'', '''', ''y]z'']"]
  by (simp add: list_literal_def)

subsection \<open>Names and their text\<close>

lemma digit_cases: "d < 10 \<Longrightarrow> d \<in> {0, 1, 2, 3, 4, 5, 6, 7, 8, 9::nat}"
  by auto

lemma DigitChar_IsDigit: "d < 10 \<Longrightarrow> IsDigit (DigitChar d)"
  using digit_cases [of d] by (auto simp: DigitChar_def IsDigit_def)

lemma DigitValue_DigitChar: "d < 10 \<Longrightarrow> DigitValue (DigitChar d) = d"
  using digit_cases [of d] by (auto simp: DigitChar_def DigitValue_def)

lemma DigitChar_zero: "d < 10 \<Longrightarrow> DigitChar d = CHR ''0'' \<Longrightarrow> d = 0"
  using digit_cases [of d] by (auto simp: DigitChar_def)

declare decimal.simps [simp del]

lemma decimal_not_Nil: "decimal n \<noteq> []"
  by (subst decimal.simps) simp

lemma decimal_IsDigit: "c \<in> set (decimal n) \<Longrightarrow> IsDigit c"
proof (induction n rule: decimal.induct)
  case (1 n)
  show ?case
  proof (cases "n < 10")
    case True
    with "1.prems" show ?thesis
      by (subst (asm) decimal.simps) (simp add: DigitChar_IsDigit)
  next
    case False
    with "1.prems" have "c \<in> set (decimal (n div 10)) \<or> c = DigitChar (n mod 10)"
      by (subst (asm) decimal.simps) auto
    with False "1.IH" show ?thesis
      by (auto simp: DigitChar_IsDigit)
  qed
qed

lemma nat_of_decimal_snoc:
  "nat_of_decimal (s @ [c]) = 10 * nat_of_decimal s + DigitValue c"
  by (simp add: nat_of_decimal_def)

lemma nat_of_decimal_decimal: "nat_of_decimal (decimal n) = n"
proof (induction n rule: decimal.induct)
  case (1 n)
  show ?case
  proof (cases "n < 10")
    case True
    then show ?thesis
      by (subst decimal.simps) (simp add: nat_of_decimal_def DigitValue_DigitChar)
  next
    case False
    with "1.IH" have "nat_of_decimal (decimal (n div 10)) = n div 10"
      by simp
    with False show ?thesis
      by (subst decimal.simps) (simp add: nat_of_decimal_snoc DigitValue_DigitChar)
  qed
qed

lemma decimal_no_leading_zero:
  "hd (decimal n) = CHR ''0'' \<Longrightarrow> length (decimal n) = 1"
proof (induction n rule: decimal.induct)
  case (1 n)
  show ?case
  proof (cases "n < 10")
    case True
    then show ?thesis
      by (subst decimal.simps) simp
  next
    case False
    have "hd (decimal n) = hd (decimal (n div 10))"
      using False by (subst decimal.simps) (simp add: decimal_not_Nil)
    with "1.prems" have z: "hd (decimal (n div 10)) = CHR ''0''"
      by simp
    with "1.IH" False have one: "length (decimal (n div 10)) = 1"
      by simp
    have "n div 10 < 10"
    proof (rule ccontr)
      assume "\<not> n div 10 < 10"
      then have "length (decimal (n div 10)) = length (decimal (n div 10 div 10)) + 1"
        by (subst decimal.simps) simp
      with one decimal_not_Nil [of "n div 10 div 10"] show False
        by simp
    qed
    then have "decimal (n div 10) = [DigitChar (n div 10)]"
      by (subst decimal.simps) simp
    with z \<open>n div 10 < 10\<close> have "n div 10 = 0"
      by (simp add: DigitChar_zero)
    with False show ?thesis
      by simp
  qed
qed

lemma IsDigit_underscore: "\<not> IsDigit (CHR ''_'')"
  by (simp add: IsDigit_def)

lemma SplitNameWithCheck_suffix:
  assumes "int k \<le> MAX_int32"
  shows "SplitNameWithCheck (B @ ''_'' @ decimal k) = Some (B, k)"
proof -
  have "rev (B @ ''_'' @ decimal k) = rev (decimal k) @ CHR ''_'' # rev B"
    by simp
  moreover have "takeWhile IsDigit (rev (decimal k) @ CHR ''_'' # rev B) = rev (decimal k)"
    by (simp add: takeWhile_tail IsDigit_underscore decimal_IsDigit)
  ultimately have digits: "rev (takeWhile IsDigit (rev (B @ ''_'' @ decimal k))) = decimal k"
    by simp
  have front: "take (length (B @ ''_'' @ decimal k) - length (decimal k)) (B @ ''_'' @ decimal k)
      = B @ ''_''"
    by simp
  show ?thesis
    unfolding SplitNameWithCheck_def Let_def digits front
    using assms decimal_no_leading_zero [of k]
    by (simp add: decimal_not_Nil nat_of_decimal_decimal)
qed

lemma FName_eq_refl: "FName_eq A A"
  by (simp add: FName_eq_def)

lemma FName_eq_sym: "FName_eq A B \<Longrightarrow> FName_eq B A"
  by (simp add: FName_eq_def)

lemma FName_eq_trans: "FName_eq A B \<Longrightarrow> FName_eq B C \<Longrightarrow> FName_eq A C"
  by (simp add: FName_eq_def)

lemma FName_Init_None: "FName_Init ''None'' = NAME_None"
  by (simp add: FName_Init_def SplitNameWithCheck_def IsDigit_def NAME_None_def)

lemma FName_Init_empty: "FName_Init [] = NAME_None"
  by (simp add: FName_Init_def SplitNameWithCheck_def)

lemma FName_Init_marker:
  "FName_Init M2U_GENERATED_NAME = \<lparr>NameEntry = ''m2uGeneratedName'', GetNumber = 0\<rparr>"
  by (simp add: FName_Init_def SplitNameWithCheck_def IsDigit_def M2U_GENERATED_NAME_def)

lemma ToString_marker: "ToString (FName_Init M2U_GENERATED_NAME) = ''m2uGeneratedName''"
  by (simp add: FName_Init_marker ToString_def)

lemma ToString_NAME_None: "ToString NAME_None = ''None''"
  by (simp add: ToString_def NAME_None_def)

lemma SplitNameWithCheck_bound:
  "SplitNameWithCheck s = Some (B, k) \<Longrightarrow> int k \<le> MAX_int32"
  by (auto simp: SplitNameWithCheck_def Let_def split: if_splits)

text \<open>A name made from text is the name made from its own text.\<close>

lemma FName_Init_ToString: "FName_Init (ToString (FName_Init s)) = FName_Init s"
proof (cases "SplitNameWithCheck s")
  case None
  show ?thesis
  proof (cases "s = []")
    case True
    then show ?thesis
      by (simp add: FName_Init_empty ToString_NAME_None FName_Init_None)
  next
    case False
    with None have "FName_Init s = \<lparr>NameEntry = s, GetNumber = 0\<rparr>"
      by (simp add: FName_Init_def)
    then show ?thesis
      by (simp add: ToString_def)
  qed
next
  case (Some p)
  obtain B k where p: "p = (B, k)"
    by (cases p)
  show ?thesis
  proof (cases "B = []")
    case True
    with Some p show ?thesis
      by (simp add: FName_Init_def [of s] ToString_NAME_None FName_Init_None)
  next
    case False
    from Some p have "int k \<le> MAX_int32"
      by (simp add: SplitNameWithCheck_bound)
    then have "SplitNameWithCheck (B @ ''_'' @ decimal k) = Some (B, k)"
      by (rule SplitNameWithCheck_suffix)
    with Some p False show ?thesis
      by (simp add: FName_Init_def ToString_def)
  qed
qed

subsection \<open>Removing the forbidden characters\<close>

lemma GeneratedName_filter:
  "GeneratedName Invalid Name = filter (\<lambda>c. ToUpper c \<notin> ToUpper ` set Invalid) Name"
proof -
  have "foldl (\<lambda>G TestChar. ReplaceInline_char TestChar G) Name Invalid
      = filter (\<lambda>c. ToUpper c \<notin> ToUpper ` set Invalid) Name"
  proof (induction Invalid arbitrary: Name)
    case Nil
    then show ?case by simp
  next
    case (Cons a Invalid)
    have "foldl (\<lambda>G TestChar. ReplaceInline_char TestChar G) Name (a # Invalid)
        = filter (\<lambda>c. ToUpper c \<notin> ToUpper ` set Invalid) (ReplaceInline_char a Name)"
      by (simp add: Cons.IH)
    also have "\<dots> = filter (\<lambda>c. ToUpper c \<notin> ToUpper ` set (a # Invalid)) Name"
      by (simp add: ReplaceInline_char_def conj_commute)
    finally show ?case .
  qed
  then show ?thesis
    by (simp add: GeneratedName_def)
qed

lemma GeneratedName_no_invalid: "set (GeneratedName Invalid Name) \<inter> set Invalid = {}"
  by (auto simp: GeneratedName_filter)

lemma GeneratedName_idem:
  "GeneratedName Invalid (GeneratedName Invalid Name) = GeneratedName Invalid Name"
  by (simp add: GeneratedName_filter)

lemma GeneratedName_fixed_iff:
  "GeneratedName Invalid Name = Name \<longleftrightarrow> (\<forall>c \<in> set Name. ToUpper c \<notin> ToUpper ` set Invalid)"
  by (simp add: GeneratedName_filter filter_id_conv)

subsection \<open>The loop of GetFreeName\<close>

lemma NamesFrom_decreases:
  assumes "StaticFindObjectFastInternal Outer T \<noteq> None"
  shows "length (NamesFrom Outer (SetNumber T (GetNumber T + 1))) < length (NamesFrom Outer T)"
proof -
  define P where "P = (\<lambda>Obj :: FName. map ToUpper (NameEntry Obj) = map ToUpper (NameEntry T)
                        \<and> GetNumber T \<le> GetNumber Obj)"
  define Q where "Q = (\<lambda>Obj :: FName. map ToUpper (NameEntry Obj) = map ToUpper (NameEntry T)
                        \<and> GetNumber T + 1 \<le> GetNumber Obj)"
  from assms obtain Obj where Obj: "Obj \<in> set Outer" "FName_eq Obj T"
    by (auto simp: StaticFindObjectFastInternal_def find_None_iff)
  have "Obj \<in> set (filter P Outer)" and "\<not> Q Obj"
    using Obj by (auto simp: P_def Q_def FName_eq_def)
  then have "length (filter Q (filter P Outer)) < length (filter P Outer)"
    by (rule length_filter_less)
  moreover have "filter Q (filter P Outer) = filter Q Outer"
    by (auto simp: P_def Q_def intro: filter_cong)
  ultimately have "length (filter Q Outer) < length (filter P Outer)"
    by simp
  then show ?thesis
    by (simp add: NamesFrom_def P_def Q_def SetNumber_def)
qed

termination GetFreeName_loop
proof (relation "measure (\<lambda>(Outer, TestName). length (NamesFrom Outer TestName))", goal_cases)
  case 1
  show ?case
    by simp
next
  case (2 Outer TestName)
  then show ?case
    using NamesFrom_decreases [of Outer TestName] by simp
qed

declare GetFreeName_loop.simps [simp del]

lemma SetNumber_same: "SetNumber T (GetNumber T) = T"
  by (simp add: SetNumber_def)

lemma NamesFrom_length: "length (NamesFrom Outer T) \<le> length Outer"
  by (simp add: NamesFrom_def)

text \<open>
  The loop returns the name with the least number, from the given one upwards, that no
  object of the level has. It turns at most as often as the level has objects, so the
  number it reaches fits the host's 32 bits whenever the number it starts from plus
  the number of objects of the level does.
\<close>

lemma GetFreeName_loop_first_free:
  "\<exists>k. GetFreeName_loop Outer T = SetNumber T (GetNumber T + k)
       \<and> (\<forall>j<k. StaticFindObjectFastInternal Outer (SetNumber T (GetNumber T + j)) \<noteq> None)
       \<and> StaticFindObjectFastInternal Outer (SetNumber T (GetNumber T + k)) = None
       \<and> k \<le> length (NamesFrom Outer T)"
proof (induction Outer T rule: GetFreeName_loop.induct)
  case (1 Outer T)
  show ?case
  proof (cases "StaticFindObjectFastInternal Outer T = None")
    case True
    then have "GetFreeName_loop Outer T = T"
      by (subst GetFreeName_loop.simps) simp
    with True show ?thesis
      by (intro exI [of _ 0]) (simp add: SetNumber_same)
  next
    case False
    let ?T' = "SetNumber T (GetNumber T + 1)"
    from "1.IH" [OF False] obtain k where
      k: "GetFreeName_loop Outer ?T' = SetNumber ?T' (GetNumber ?T' + k)"
        "\<forall>j<k. StaticFindObjectFastInternal Outer (SetNumber ?T' (GetNumber ?T' + j)) \<noteq> None"
        "StaticFindObjectFastInternal Outer (SetNumber ?T' (GetNumber ?T' + k)) = None"
        "k \<le> length (NamesFrom Outer ?T')"
      by blast
    have loop: "GetFreeName_loop Outer T = GetFreeName_loop Outer ?T'"
      by (subst GetFreeName_loop.simps) (simp add: False)
    have turns: "k + 1 \<le> length (NamesFrom Outer T)"
      using k(4) NamesFrom_decreases [OF False] by simp
    have "\<forall>j<k + 1. StaticFindObjectFastInternal Outer (SetNumber T (GetNumber T + j)) \<noteq> None"
    proof (intro allI impI)
      fix j assume "j < k + 1"
      show "StaticFindObjectFastInternal Outer (SetNumber T (GetNumber T + j)) \<noteq> None"
      proof (cases j)
        case 0
        with False show ?thesis
          by (simp add: SetNumber_same)
      next
        case (Suc i)
        with \<open>j < k + 1\<close> have "i < k"
          by simp
        with k(2) have "StaticFindObjectFastInternal Outer
            (SetNumber ?T' (GetNumber ?T' + i)) \<noteq> None"
          by blast
        with Suc show ?thesis
          by (simp add: SetNumber_def)
      qed
    qed
    with k(1,3) loop turns show ?thesis
      by (intro exI [of _ "k + 1"]) (simp add: SetNumber_def)
  qed
qed

lemma GetFreeName_loop_bound:
  "GetNumber (GetFreeName_loop Outer T) \<le> GetNumber T + length Outer"
proof -
  from GetFreeName_loop_first_free [of Outer T] obtain k where
    "GetFreeName_loop Outer T = SetNumber T (GetNumber T + k)" "k \<le> length (NamesFrom Outer T)"
    by blast
  with NamesFrom_length [of Outer T] show ?thesis
    by (simp add: SetNumber_def)
qed

text \<open>
  So the loop stays within the host's 32-bit numbers, where the model's addition is the
  source's, whenever the number it starts from plus the number of objects of the level
  does.
\<close>

lemma GetFreeName_loop_in_range:
  assumes "int (GetNumber T) + int (length Outer) \<le> MAX_int32"
  shows "int (GetNumber (GetFreeName_loop Outer T)) \<le> MAX_int32"
  using assms GetFreeName_loop_bound [of Outer T] by linarith

subsection \<open>RenameActor\<close>

lemma RenameActor_Rename_returns_name:
  "RenameActor_Rename h A N = (A', R) \<Longrightarrow> R = GetFName A'"
  by (auto simp: RenameActor_Rename_def Let_def SetActorLabel_def split: if_splits)

lemma RenameActor_Rename_untouched_or_synced:
  "RenameActor_Rename h A N = (A', R) \<Longrightarrow> A' = A \<or> ActorLabel A' = ToString (GetFName A')"
  by (auto simp: RenameActor_Rename_def Let_def SetActorLabel_def split: if_splits)

text \<open>
  The returned name is the actor's name after the call, and the call either leaves the
  actor as it was or leaves the label equal to the text of that name.
\<close>

lemma RenameActor_untouched_or_synced:
  assumes "RenameActor h A Name = (A', R)"
  shows "R = GetFName A' \<and> (A' = A \<or> ActorLabel A' = ToString (GetFName A'))"
proof (cases "GeneratedName (INVALID_OBJECTNAME_CHARACTERS h) Name = []")
  case True
  with assms show ?thesis
    by (auto simp: RenameActor_def)
next
  case False
  with assms have "RenameActor_Rename h A
      (RenameActor_NewFName (GeneratedName (INVALID_OBJECTNAME_CHARACTERS h) Name)) = (A', R)"
    by (simp add: RenameActor_def)
  then show ?thesis
    using RenameActor_Rename_returns_name RenameActor_Rename_untouched_or_synced by blast
qed

lemma RenameActor_early_return:
  assumes "GeneratedName (INVALID_OBJECTNAME_CHARACTERS h) Name = []
    \<or> FName_eq (GetFName A)
         (RenameActor_NewFName (GeneratedName (INVALID_OBJECTNAME_CHARACTERS h) Name))
    \<or> \<not> Rename_Test h A (ToString
         (RenameActor_NewFName (GeneratedName (INVALID_OBJECTNAME_CHARACTERS h) Name)))"
  shows "RenameActor h A Name = (A, GetFName A)"
  using assms by (auto simp: RenameActor_def RenameActor_Rename_def Let_def)

text \<open>
  C1. Let the label of the actor be the text of its identifier before the call. Then
  on every return path of \<open>RenameActor\<close> the label is the text of the identifier the
  actor has after the call, and that identifier is the one returned. In particular,
  when the identifier is not changed, because the name is stripped to nothing
  (line 133), is the name the actor has (line 153), or is refused by the host's test
  rename (line 166), the actor is left exactly as it was, label included.
\<close>

theorem RenameActor_label_mirrors_identifier:
  assumes "ActorLabel A = ToString (GetFName A)" and "RenameActor h A Name = (A', R)"
  shows "ActorLabel A' = ToString (GetFName A') \<and> R = GetFName A'
    \<and> (GeneratedName (INVALID_OBJECTNAME_CHARACTERS h) Name = []
         \<or> FName_eq (GetFName A)
              (RenameActor_NewFName (GeneratedName (INVALID_OBJECTNAME_CHARACTERS h) Name))
         \<or> \<not> Rename_Test h A (ToString
              (RenameActor_NewFName (GeneratedName (INVALID_OBJECTNAME_CHARACTERS h) Name)))
        \<longrightarrow> A' = A)"
proof (intro conjI impI)
  from RenameActor_untouched_or_synced [OF assms(2)]
  have r: "R = GetFName A'" and c: "A' = A \<or> ActorLabel A' = ToString (GetFName A')"
    by simp_all
  from c assms(1) show "ActorLabel A' = ToString (GetFName A')"
    by auto
  from r show "R = GetFName A'" .
next
  assume "GeneratedName (INVALID_OBJECTNAME_CHARACTERS h) Name = []
    \<or> FName_eq (GetFName A)
         (RenameActor_NewFName (GeneratedName (INVALID_OBJECTNAME_CHARACTERS h) Name))
    \<or> \<not> Rename_Test h A (ToString
         (RenameActor_NewFName (GeneratedName (INVALID_OBJECTNAME_CHARACTERS h) Name)))"
  then have "RenameActor h A Name = (A, GetFName A)"
    by (rule RenameActor_early_return)
  with assms(2) show "A' = A"
    by simp
qed

theorem RenameActor_label_mirrors_identifier_witness:
  "ActorLabel sample_Actor = ToString (GetFName sample_Actor)
   \<and> RenameActor sample_Host sample_Actor ''Stool''
       = (sample_Actor\<lparr>GetFName := \<lparr>NameEntry = ''Stool'', GetNumber = 0\<rparr>,
            ActorLabel := ''Stool''\<rparr>, \<lparr>NameEntry = ''Stool'', GetNumber = 0\<rparr>)
   \<and> ToString \<lparr>NameEntry = ''Stool'', GetNumber = 0\<rparr> = ''Stool''
   \<and> RenameActor sample_Host sample_Actor ''#'' = (sample_Actor, GetFName sample_Actor)
   \<and> RenameActor sample_Host sample_Actor ''Chair_5!'' = (sample_Actor, GetFName sample_Actor)
   \<and> RenameActor sample_Host sample_Actor ''Chair_6'' = (sample_Actor, GetFName sample_Actor)"
proof -
  have synced: "ActorLabel sample_Actor = ToString (GetFName sample_Actor)"
    by code_simp
  have stool: "RenameActor sample_Host sample_Actor ''Stool''
      = (sample_Actor\<lparr>GetFName := \<lparr>NameEntry = ''Stool'', GetNumber = 0\<rparr>,
           ActorLabel := ''Stool''\<rparr>, \<lparr>NameEntry = ''Stool'', GetNumber = 0\<rparr>)"
    by code_simp
  have empty: "GeneratedName (INVALID_OBJECTNAME_CHARACTERS sample_Host) ''#'' = []"
    by code_simp
  have same: "FName_eq (GetFName sample_Actor) (RenameActor_NewFName
      (GeneratedName (INVALID_OBJECTNAME_CHARACTERS sample_Host) ''Chair_5!''))"
    by code_simp
  have refused: "\<not> Rename_Test sample_Host sample_Actor (ToString (RenameActor_NewFName
      (GeneratedName (INVALID_OBJECTNAME_CHARACTERS sample_Host) ''Chair_6'')))"
    by code_simp
  note inst = RenameActor_label_mirrors_identifier [OF synced, of sample_Host]
  have a: "ToString \<lparr>NameEntry = ''Stool'', GetNumber = 0\<rparr> = ''Stool''"
    using inst [OF stool] by simp
  have b: "RenameActor sample_Host sample_Actor ''#'' = (sample_Actor, GetFName sample_Actor)"
    using inst [OF prod.collapse [symmetric], of "''#''"] empty
    by (metis prod.collapse)
  have c: "RenameActor sample_Host sample_Actor ''Chair_5!''
      = (sample_Actor, GetFName sample_Actor)"
    using inst [OF prod.collapse [symmetric], of "''Chair_5!''"] same
    by (metis prod.collapse)
  have d: "RenameActor sample_Host sample_Actor ''Chair_6''
      = (sample_Actor, GetFName sample_Actor)"
    using inst [OF prod.collapse [symmetric], of "''Chair_6''"] refused
    by (metis prod.collapse)
  from synced stool a b c d show ?thesis
    by blast
qed

text \<open>
  The premise on the label is needed: the early returns do not write the label, so a
  label that differed from the identifier before the call differs from it afterwards.
\<close>

lemma RenameActor_keeps_other_label:
  "RenameActor sample_Host (sample_Actor\<lparr>ActorLabel := ''Chair''\<rparr>) ''Chair_5''
     = (sample_Actor\<lparr>ActorLabel := ''Chair''\<rparr>, \<lparr>NameEntry = ''Chair'', GetNumber = 6\<rparr>)"
  by code_simp

text \<open>
  C2 as stated fails for \<open>RenameActor\<close>: a name that is stripped to nothing is not
  replaced by the marker. The sample actor \<open>Chair_5\<close> asked to be renamed to \<open>#\<close> keeps
  its name, although the host would have accepted the marker as its new name.
\<close>

theorem RenameActor_empty_counterexample:
  "GeneratedName (INVALID_OBJECTNAME_CHARACTERS sample_Host) ''#'' = []
   \<and> Rename_Test sample_Host sample_Actor M2U_GENERATED_NAME
   \<and> RenameActor sample_Host sample_Actor ''#''
       = (sample_Actor, \<lparr>NameEntry = ''Chair'', GetNumber = 6\<rparr>)
   \<and> RenameActor sample_Host sample_Actor ''#''
       \<noteq> RenameActor_Rename sample_Host sample_Actor (FName_Init M2U_GENERATED_NAME)"
  by code_simp

text \<open>
  C2, amended. Let \<open>G\<close> be the name without its forbidden characters. In \<open>GetFreeName\<close>,
  when \<open>G\<close> is empty or is the host's \<open>NAME_None\<close>, the search for a free name starts
  from the marker \<open>m2uGeneratedName\<close>. In \<open>RenameActor\<close>, when \<open>G\<close> is not empty and is
  the host's \<open>NAME_None\<close>, the actor is renamed to the marker; when \<open>G\<close> is empty, the
  actor is left as it is and its present name is returned. All of these return a
  name; none is a fault.
\<close>

theorem sanitized_to_marker:
  "(let G = GeneratedName (INVALID_OBJECTNAME_CHARACTERS h) Name in
      (G = [] \<or> FName_eq (FName_Init G) NAME_None \<longrightarrow>
         GetFreeName h Name = GetFreeName_loop (LevelObjects h) (FName_Init M2U_GENERATED_NAME))
    \<and> (G \<noteq> [] \<and> FName_eq (FName_Init G) NAME_None \<longrightarrow>
         RenameActor h A Name = RenameActor_Rename h A (FName_Init M2U_GENERATED_NAME))
    \<and> (G = [] \<longrightarrow> RenameActor h A Name = (A, GetFName A)))
   \<and> ToString (FName_Init M2U_GENERATED_NAME) = ''m2uGeneratedName''"
  by (auto simp: Let_def GetFreeName_def GetFreeName_TestName_def RenameActor_def
      RenameActor_NewFName_def FName_Init_empty FName_eq_refl ToString_marker)

theorem sanitized_to_marker_witness:
  "GetFreeName sample_Host ''#'' = \<lparr>NameEntry = ''m2uGeneratedName'', GetNumber = 0\<rparr>
   \<and> GetFreeName sample_Host ''none'' = \<lparr>NameEntry = ''m2uGeneratedName'', GetNumber = 0\<rparr>
   \<and> RenameActor sample_Host sample_Actor ''None!''
        = RenameActor_Rename sample_Host sample_Actor (FName_Init M2U_GENERATED_NAME)
   \<and> RenameActor sample_Host sample_Actor ''#'' = (sample_Actor, GetFName sample_Actor)"
proof -
  have e: "GeneratedName (INVALID_OBJECTNAME_CHARACTERS sample_Host) ''#'' = []"
    by code_simp
  have n: "GeneratedName (INVALID_OBJECTNAME_CHARACTERS sample_Host) ''none'' = ''none''"
    by code_simp
  have b: "GeneratedName (INVALID_OBJECTNAME_CHARACTERS sample_Host) ''None!'' = ''None''"
    by code_simp
  have nn: "FName_eq (FName_Init ''none'') NAME_None" "FName_eq (FName_Init ''None'') NAME_None"
    by code_simp+
  have loop: "GetFreeName_loop (LevelObjects sample_Host) (FName_Init M2U_GENERATED_NAME)
      = \<lparr>NameEntry = ''m2uGeneratedName'', GetNumber = 0\<rparr>"
    by code_simp
  show ?thesis
    using sanitized_to_marker [of sample_Host "''#''" sample_Actor]
      sanitized_to_marker [of sample_Host "''none''" sample_Actor]
      sanitized_to_marker [of sample_Host "''None!''" sample_Actor]
    by (simp add: Let_def e n b nn loop)
qed

text \<open>
  C4. When the test rename to the new name reports that the rename is not possible,
  \<open>RenameActor\<close> leaves the actor as it is, identifier included, and returns the
  identifier the actor had; the committing rename is not made, and the result is a
  value, not a fault. This holds whether or not the new name differs from the present
  one.
\<close>

theorem RenameActor_rejected:
  assumes "\<not> Rename_Test h A (ToString (RenameActor_NewFName
             (GeneratedName (INVALID_OBJECTNAME_CHARACTERS h) Name)))"
  shows "RenameActor h A Name = (A, GetFName A)"
  using assms by (simp add: RenameActor_def RenameActor_Rename_def Let_def)

theorem RenameActor_rejected_witness:
  "GeneratedName (INVALID_OBJECTNAME_CHARACTERS sample_Host) ''Chair_6'' = ''Chair_6''
   \<and> \<not> FName_eq (GetFName sample_Actor) (RenameActor_NewFName ''Chair_6'')
   \<and> \<not> Rename_Test sample_Host sample_Actor (ToString (RenameActor_NewFName ''Chair_6''))
   \<and> RenameActor sample_Host sample_Actor ''Chair_6''
        = (sample_Actor, \<lparr>NameEntry = ''Chair'', GetNumber = 6\<rparr>)"
proof -
  have g: "GeneratedName (INVALID_OBJECTNAME_CHARACTERS sample_Host) ''Chair_6'' = ''Chair_6''"
    by code_simp
  have d: "\<not> FName_eq (GetFName sample_Actor) (RenameActor_NewFName ''Chair_6'')"
    by code_simp
  have t: "\<not> Rename_Test sample_Host sample_Actor (ToString (RenameActor_NewFName ''Chair_6''))"
    by code_simp
  have n: "GetFName sample_Actor = \<lparr>NameEntry = ''Chair'', GetNumber = 6\<rparr>"
    by (simp add: sample_Actor_def)
  show ?thesis
    using RenameActor_rejected [of sample_Host sample_Actor "''Chair_6''"] g d t n
    by simp
qed

text \<open>
  C5. Renaming an actor to the text of its own identifier returns that identifier and
  leaves the actor exactly as it was (the label is not written at all). The identifier
  is one the host can have given: its text has no forbidden character, it is the name
  the host makes from that text (as every name made from text is), and it is not the
  host's \<open>NAME_None\<close>.
\<close>

theorem RenameActor_idempotent:
  assumes valid: "GeneratedName (INVALID_OBJECTNAME_CHARACTERS h) (ToString (GetFName A))
                    = ToString (GetFName A)"
    and canonical: "FName_eq (FName_Init (ToString (GetFName A))) (GetFName A)"
    and named: "\<not> FName_eq (GetFName A) NAME_None"
  shows "RenameActor h A (ToString (GetFName A)) = (A, GetFName A)"
proof -
  have "\<not> FName_eq (FName_Init (ToString (GetFName A))) NAME_None"
    using canonical named FName_eq_sym FName_eq_trans by blast
  then have "RenameActor_NewFName (ToString (GetFName A)) = FName_Init (ToString (GetFName A))"
    by (simp add: RenameActor_NewFName_def)
  then have "RenameActor_Rename h A (RenameActor_NewFName (ToString (GetFName A)))
      = (A, GetFName A)"
    using canonical by (simp add: RenameActor_Rename_def FName_eq_sym)
  then show ?thesis
    by (simp add: RenameActor_def valid Let_def)
qed

theorem RenameActor_idempotent_witness:
  "ToString (GetFName sample_Actor) = ''Chair_5''
   \<and> RenameActor sample_Host sample_Actor ''Chair_5'' = (sample_Actor, GetFName sample_Actor)"
proof -
  have s: "ToString (GetFName sample_Actor) = ''Chair_5''"
    by code_simp
  have v: "GeneratedName (INVALID_OBJECTNAME_CHARACTERS sample_Host) ''Chair_5'' = ''Chair_5''"
    by code_simp
  have c: "FName_eq (FName_Init ''Chair_5'') (GetFName sample_Actor)"
    by code_simp
  have n: "\<not> FName_eq (GetFName sample_Actor) NAME_None"
    by code_simp
  show ?thesis
    using RenameActor_idempotent [of sample_Host sample_Actor] s v c n
    by simp
qed

subsection \<open>GetFreeName\<close>

lemma GeneratedName_subset:
  assumes "GeneratedName Invalid Allowed = Allowed" and "set Name \<subseteq> set Allowed"
  shows "GeneratedName Invalid Name = Name"
  using assms by (auto simp: GeneratedName_fixed_iff)

lemma decimal_digits: "set (decimal n) \<subseteq> set ''0123456789''"
  using decimal_IsDigit by (auto simp: IsDigit_def)

text \<open>
  C3. Let an object named \<open>Chair_5\<close> be in the level, and let the host's table forbid
  none of the characters of \<open>Chair_\<close> and no digit. Then \<open>GetFreeName\<close> of \<open>Chair_5\<close>
  returns \<open>Chair_n\<close> for the least \<open>n\<close> above 5 that no object of the level is named by:
  the base name is kept, \<open>Chair_5\<close> and every \<open>Chair_m\<close> with \<open>m\<close> from 5 below \<open>n\<close> are
  in use, the returned name is not in use and is not \<open>Chair_5\<close>, and its text has no
  forbidden character. The loop turns at most as often as the level has objects, so
  the number stays within the host's 32 bits in every level of at most
  \<open>2^31 - 7\<close> objects.
\<close>

theorem GetFreeName_Chair_5:
  assumes table: "GeneratedName (INVALID_OBJECTNAME_CHARACTERS h) ''Chair_0123456789''
                    = ''Chair_0123456789''"
    and used: "StaticFindObjectFastInternal (LevelObjects h)
                 \<lparr>NameEntry = ''Chair'', GetNumber = 6\<rparr> \<noteq> None"
  shows "\<exists>k>0. GetFreeName h ''Chair_5'' = \<lparr>NameEntry = ''Chair'', GetNumber = 6 + k\<rparr>
           \<and> ToString (GetFreeName h ''Chair_5'') = ''Chair_'' @ decimal (5 + k)
           \<and> (\<forall>j<k. StaticFindObjectFastInternal (LevelObjects h)
                  \<lparr>NameEntry = ''Chair'', GetNumber = 6 + j\<rparr> \<noteq> None)
           \<and> StaticFindObjectFastInternal (LevelObjects h) (GetFreeName h ''Chair_5'') = None
           \<and> \<not> FName_eq (GetFreeName h ''Chair_5'') \<lparr>NameEntry = ''Chair'', GetNumber = 6\<rparr>
           \<and> GeneratedName (INVALID_OBJECTNAME_CHARACTERS h) (ToString (GetFreeName h ''Chair_5''))
               = ToString (GetFreeName h ''Chair_5'')
           \<and> k \<le> length (LevelObjects h)"
proof -
  let ?T = "\<lparr>NameEntry = ''Chair'', GetNumber = 6\<rparr>"
  have g: "GeneratedName (INVALID_OBJECTNAME_CHARACTERS h) ''Chair_5'' = ''Chair_5''"
    using table by (rule GeneratedName_subset) simp
  have t: "GetFreeName_TestName ''Chair_5'' = ?T"
    by (simp add: GetFreeName_TestName_def FName_Init_def SplitNameWithCheck_def IsDigit_def
        nat_of_decimal_def DigitValue_def MAX_int32_def FName_eq_def NAME_None_def)
  have start: "GetFreeName h ''Chair_5'' = GetFreeName_loop (LevelObjects h) ?T"
    by (simp add: GetFreeName_def g t)
  from GetFreeName_loop_first_free [of "LevelObjects h" ?T] obtain k where
    k: "GetFreeName_loop (LevelObjects h) ?T = \<lparr>NameEntry = ''Chair'', GetNumber = 6 + k\<rparr>"
      "\<forall>j<k. StaticFindObjectFastInternal (LevelObjects h)
          \<lparr>NameEntry = ''Chair'', GetNumber = 6 + j\<rparr> \<noteq> None"
      "StaticFindObjectFastInternal (LevelObjects h)
          \<lparr>NameEntry = ''Chair'', GetNumber = 6 + k\<rparr> = None"
      "k \<le> length (NamesFrom (LevelObjects h) ?T)"
    by (auto simp: SetNumber_def)
  have few: "k \<le> length (LevelObjects h)"
    using k(4) NamesFrom_length [of "LevelObjects h" ?T] by simp
  have pos: "0 < k"
    using used k(3) by (cases "k = 0") simp_all
  have str: "ToString \<lparr>NameEntry = ''Chair'', GetNumber = 6 + k\<rparr> = ''Chair_'' @ decimal (5 + k)"
    by (simp add: ToString_def)
  have "''Chair_0123456789'' = ''Chair_'' @ ''0123456789''"
    by simp
  moreover have "set (''Chair_'' @ decimal (5 + k)) \<subseteq> set (''Chair_'' @ ''0123456789'')"
    by (simp only: set_append) (rule Un_mono [OF subset_refl decimal_digits])
  ultimately have "set (''Chair_'' @ decimal (5 + k)) \<subseteq> set ''Chair_0123456789''"
    by (simp only:)
  with table have clean: "GeneratedName (INVALID_OBJECTNAME_CHARACTERS h)
      (''Chair_'' @ decimal (5 + k)) = ''Chair_'' @ decimal (5 + k)"
    by (rule GeneratedName_subset)
  have res: "GetFreeName h ''Chair_5'' = \<lparr>NameEntry = ''Chair'', GetNumber = 6 + k\<rparr>"
    using start k(1) by (rule trans)
  have differs: "\<not> FName_eq \<lparr>NameEntry = ''Chair'', GetNumber = 6 + k\<rparr>
      \<lparr>NameEntry = ''Chair'', GetNumber = 6\<rparr>"
    using pos by (simp add: FName_eq_def)
  show ?thesis
    unfolding res str
    using pos k(2,3) differs clean few by blast
qed

theorem GetFreeName_Chair_5_witness:
  "GetFreeName sample_Host ''Chair_5'' = \<lparr>NameEntry = ''Chair'', GetNumber = 8\<rparr>
   \<and> ToString (GetFreeName sample_Host ''Chair_5'') = ''Chair_7''
   \<and> (\<exists>k>0. GetFreeName sample_Host ''Chair_5'' = \<lparr>NameEntry = ''Chair'', GetNumber = 6 + k\<rparr>
         \<and> (\<forall>j<k. StaticFindObjectFastInternal (LevelObjects sample_Host)
                \<lparr>NameEntry = ''Chair'', GetNumber = 6 + j\<rparr> \<noteq> None)
         \<and> StaticFindObjectFastInternal (LevelObjects sample_Host)
             (GetFreeName sample_Host ''Chair_5'') = None)"
proof -
  have table: "GeneratedName (INVALID_OBJECTNAME_CHARACTERS sample_Host) ''Chair_0123456789''
      = ''Chair_0123456789''"
    by code_simp
  have used: "StaticFindObjectFastInternal (LevelObjects sample_Host)
      \<lparr>NameEntry = ''Chair'', GetNumber = 6\<rparr> \<noteq> None"
    by code_simp
  have val: "GetFreeName sample_Host ''Chair_5'' = \<lparr>NameEntry = ''Chair'', GetNumber = 8\<rparr>"
    by code_simp
  have str: "ToString (GetFreeName sample_Host ''Chair_5'') = ''Chair_7''"
    by code_simp
  from GetFreeName_Chair_5 [OF table used] val str show ?thesis
    by blast
qed

lemma GetFreeName_not_in_use:
  "StaticFindObjectFastInternal (LevelObjects h) (GetFreeName h Name) = None"
  using GetFreeName_loop_first_free
    [of "LevelObjects h"
        "GetFreeName_TestName (GeneratedName (INVALID_OBJECTNAME_CHARACTERS h) Name)"]
  by (auto simp: GetFreeName_def Let_def)

subsection \<open>SetActorTransformRelativeFromText\<close>

lemma then_do_eq_Inr: "then_do r f = Inr y \<longleftrightarrow> (\<exists>x. r = Inr x \<and> f x = Inr y)"
  by (cases r) (simp_all add: then_do_def)

lemma ApplyLocation_frame:
  assumes "ApplyLocation h Str A = Inr A'"
  shows "RelativeRotation A' = RelativeRotation A \<and> RelativeScale3D A' = RelativeScale3D A
    \<and> GetFName A' = GetFName A \<and> ActorLabel A' = ActorLabel A
    \<and> Notifications A' = Notifications A
    \<and> (Strfind Str ''T='' = None \<longrightarrow> A' = A)"
  using assms
  by (auto simp: ApplyLocation_def then_do_eq_Inr SetActorRelativeLocation_def
      split: option.splits)

lemma ApplyRotation_frame:
  assumes "ApplyRotation h Str A = Inr A'"
  shows "RelativeLocation A' = RelativeLocation A \<and> RelativeScale3D A' = RelativeScale3D A
    \<and> GetFName A' = GetFName A \<and> ActorLabel A' = ActorLabel A
    \<and> Notifications A' = Notifications A
    \<and> (Strfind Str ''R='' = None \<longrightarrow> A' = A)"
  using assms
  by (auto simp: ApplyRotation_def then_do_eq_Inr SetActorRelativeRotation_def
      split: option.splits)

lemma ApplyScale_frame:
  assumes "ApplyScale h Str A = Inr A'"
  shows "RelativeLocation A' = RelativeLocation A \<and> RelativeRotation A' = RelativeRotation A
    \<and> GetFName A' = GetFName A \<and> ActorLabel A' = ActorLabel A
    \<and> Notifications A' = Notifications A
    \<and> (Strfind Str ''S='' = None \<longrightarrow> A' = A)"
  using assms
  by (auto simp: ApplyScale_def then_do_eq_Inr SetActorRelativeScale3D_def
      split: option.splits)

lemma NotifyMoved_fields:
  "RelativeLocation (NotifyMoved A) = RelativeLocation A"
  "RelativeRotation (NotifyMoved A) = RelativeRotation A"
  "RelativeScale3D (NotifyMoved A) = RelativeScale3D A"
  "GetFName (NotifyMoved A) = GetFName A"
  "ActorLabel (NotifyMoved A) = ActorLabel A"
  "Notifications (NotifyMoved A) = Notifications A @
     [InvalidateLightingCache, PostEditMove True, CheckDefaultSubobjects, MarkPackageDirty]"
  by (simp_all add: NotifyMoved_def Notify_def)

lemma SetActorTransformRelativeFromText_steps:
  assumes "SetActorTransformRelativeFromText h A Str = Inr A'"
  obtains A1 A2 A3 where "ApplyLocation h Str A = Inr A1" "ApplyRotation h Str A1 = Inr A2"
    "ApplyScale h Str A2 = Inr A3" "A' = NotifyMoved A3"
  using assms by (auto simp: SetActorTransformRelativeFromText_def then_do_eq_Inr)

text \<open>
  The call returns unless a marker it finds ends the text.
\<close>

lemma SetActorTransformRelativeFromText_returns:
  assumes "\<forall>Stream. Strfind Str ''T='' = Some Stream \<longrightarrow> 3 \<le> length Stream"
    and "\<forall>Stream. Strfind Str ''R='' = Some Stream \<longrightarrow> 3 \<le> length Stream"
    and "\<forall>Stream. Strfind Str ''S='' = Some Stream \<longrightarrow> 3 \<le> length Stream"
  shows "\<exists>A'. SetActorTransformRelativeFromText h A Str = Inr A'"
  using assms
  by (auto simp: SetActorTransformRelativeFromText_def ApplyLocation_def ApplyRotation_def
      ApplyScale_def Skip3_def then_do_def split: option.splits)

lemma ToUpper_cases: "ToUpper x = x \<or> ToUpper x \<in> set ''ABCDEFGHIJKLMNOPQRSTUVWXYZ''"
proof -
  define tbl where "tbl = zip ''abcdefghijklmnopqrstuvwxyz'' ''ABCDEFGHIJKLMNOPQRSTUVWXYZ''"
  have d: "ToUpper x = (case map_of tbl x of Some u \<Rightarrow> u | None \<Rightarrow> x)"
    unfolding tbl_def ToUpper_def ..
  show ?thesis
  proof (cases "map_of tbl x")
    case None
    then have "ToUpper x = x"
      by (simp only: d option.case)
    then show ?thesis ..
  next
    case (Some u)
    then have "(x, u) \<in> set tbl"
      by (rule map_of_SomeD)
    then have "u \<in> set ''ABCDEFGHIJKLMNOPQRSTUVWXYZ''"
      unfolding tbl_def by (rule set_zip_rightD)
    moreover from Some have "ToUpper x = u"
      by (simp only: d option.case)
    ultimately have "ToUpper x \<in> set ''ABCDEFGHIJKLMNOPQRSTUVWXYZ''"
      by (simp only:)
    then show ?thesis ..
  qed
qed

lemma ToUpper_equals_sign: "ToUpper (CHR ''='') = CHR ''=''"
  by code_simp

lemma ToUpper_equals: "ToUpper x = CHR ''='' \<longleftrightarrow> x = CHR ''=''"
proof
  assume "ToUpper x = CHR ''=''"
  moreover have "CHR ''='' \<notin> set ''ABCDEFGHIJKLMNOPQRSTUVWXYZ''"
    by simp
  ultimately show "x = CHR ''=''"
    using ToUpper_cases [of x] by metis
next
  assume "x = CHR ''=''"
  then show "ToUpper x = CHR ''=''"
    by (simp only: ToUpper_equals_sign)
qed

text \<open>A text without the character \<open>=\<close> has none of the markers.\<close>

lemma Strfind_scan_no_equals:
  "CHR ''='' \<notin> set Str \<Longrightarrow> Strfind_scan Alnum Str [m, CHR ''=''] = None"
proof (induction Str arbitrary: Alnum)
  case Nil
  then show ?case by simp
next
  case (Cons c Str)
  have "map ToUpper (take 1 Str) \<noteq> [ToUpper (CHR ''='')]"
    using Cons.prems by (cases Str) (auto simp: ToUpper_equals ToUpper_equals_sign)
  with Cons show ?case
    by simp
qed

lemma Strfind_no_equals: "CHR ''='' \<notin> set Str \<Longrightarrow> Strfind Str [m, CHR ''=''] = None"
  by (simp add: Strfind_def Strfind_scan_no_equals)

text \<open>
  Where the host's search finds a marker, the marker stands in the text, up to case:
  the result is the rest of the text from there, and it begins with the marker.
\<close>

lemma Strfind_scan_Some:
  assumes "Strfind_scan Alnum Str Find = Some Stream" and "Find \<noteq> []"
  shows "\<exists>pre. Str = pre @ Stream
    \<and> map ToUpper (take (length Find) Stream) = map ToUpper Find"
  using assms
proof (induction Str arbitrary: Alnum)
  case Nil
  then show ?case by simp
next
  case (Cons c Str)
  show ?case
  proof (cases "\<not> Alnum \<and> ToUpper c = ToUpper (hd Find)
      \<and> map ToUpper (take (length Find - 1) Str) = map ToUpper (tl Find)")
    case True
    with Cons.prems have s: "Stream = c # Str"
      by simp
    from Cons.prems(2) obtain f fs where f: "Find = f # fs"
      by (cases Find) auto
    with True have "map ToUpper (take (length Find) (c # Str)) = map ToUpper Find"
      by simp
    with s show ?thesis
      by (intro exI [of _ "[]"]) simp
  next
    case False
    with Cons.prems have "Strfind_scan (IsAlnum (ToUpper c)) Str Find = Some Stream"
      by (simp split: if_splits)
    from Cons.IH [OF this Cons.prems(2)] obtain pre where
      "Str = pre @ Stream" "map ToUpper (take (length Find) Stream) = map ToUpper Find"
      by blast
    then show ?thesis
      by (intro exI [of _ "c # pre"]) simp
  qed
qed

lemma Strfind_Some:
  assumes "Strfind Str Find = Some Stream" and "Find \<noteq> []"
  shows "\<exists>pre. Str = pre @ Stream
    \<and> map ToUpper (take (length Find) Stream) = map ToUpper Find"
  using assms Strfind_scan_Some by (simp add: Strfind_def)

lemma Strfind_Some_length:
  assumes "Strfind Str Find = Some Stream" and "Find \<noteq> []"
  shows "length Find \<le> length Stream"
proof -
  from Strfind_Some [OF assms] have "map ToUpper (take (length Find) Stream) = map ToUpper Find"
    by blast
  then have "length (take (length Find) Stream) = length Find"
    by (metis length_map)
  then show ?thesis
    by simp
qed

text \<open>
  C6. Whenever the call returns, a component whose marker is not found in the text is
  the same after the call as before: the location without \<open>T=\<close>, the rotation without
  \<open>R=\<close>, the scale without \<open>S=\<close>. On the text \<open>T=(1 2 3)\<close> the call returns, the
  location is what the host's parser reads from \<open>1 2 3)\<close>, and rotation and scale
  are as they were.
\<close>

theorem SetActorTransformRelativeFromText_field_independent:
  "(\<forall>A'. SetActorTransformRelativeFromText h A Str = Inr A' \<longrightarrow>
        (Strfind Str ''T='' = None \<longrightarrow> RelativeLocation A' = RelativeLocation A)
      \<and> (Strfind Str ''R='' = None \<longrightarrow> RelativeRotation A' = RelativeRotation A)
      \<and> (Strfind Str ''S='' = None \<longrightarrow> RelativeScale3D A' = RelativeScale3D A))
   \<and> (\<exists>A'. SetActorTransformRelativeFromText h A ''T=(1 2 3)'' = Inr A'
         \<and> RelativeLocation A' = GetFVECTORSpaceDelimited h ''1 2 3)''
         \<and> RelativeRotation A' = RelativeRotation A
         \<and> RelativeScale3D A' = RelativeScale3D A)"
proof (intro conjI allI impI)
  fix A'
  assume r: "SetActorTransformRelativeFromText h A Str = Inr A'"
  then obtain A1 A2 A3 where s: "ApplyLocation h Str A = Inr A1"
      "ApplyRotation h Str A1 = Inr A2" "ApplyScale h Str A2 = Inr A3" "A' = NotifyMoved A3"
    by (rule SetActorTransformRelativeFromText_steps)
  note f = ApplyLocation_frame [OF s(1)] ApplyRotation_frame [OF s(2)]
    ApplyScale_frame [OF s(3)]
  {
    assume "Strfind Str ''T='' = None"
    with f s(4) show "RelativeLocation A' = RelativeLocation A"
      by (simp add: NotifyMoved_fields)
  }
  {
    assume "Strfind Str ''R='' = None"
    with f s(4) show "RelativeRotation A' = RelativeRotation A"
      by (simp add: NotifyMoved_fields)
  }
  {
    assume "Strfind Str ''S='' = None"
    with f s(4) show "RelativeScale3D A' = RelativeScale3D A"
      by (simp add: NotifyMoved_fields)
  }
next
  have t: "Strfind ''T=(1 2 3)'' ''T='' = Some ''T=(1 2 3)''"
    by code_simp
  have r: "Strfind ''T=(1 2 3)'' ''R='' = None"
    by code_simp
  have s: "Strfind ''T=(1 2 3)'' ''S='' = None"
    by code_simp
  have "SetActorTransformRelativeFromText h A ''T=(1 2 3)''
      = Inr (NotifyMoved (SetActorRelativeLocation A (GetFVECTORSpaceDelimited h ''1 2 3)'')))"
    by (simp add: SetActorTransformRelativeFromText_def ApplyLocation_def ApplyRotation_def
        ApplyScale_def t r s Skip3_def then_do_def)
  then show "\<exists>A'. SetActorTransformRelativeFromText h A ''T=(1 2 3)'' = Inr A'
         \<and> RelativeLocation A' = GetFVECTORSpaceDelimited h ''1 2 3)''
         \<and> RelativeRotation A' = RelativeRotation A
         \<and> RelativeScale3D A' = RelativeScale3D A"
    by (simp add: NotifyMoved_fields SetActorRelativeLocation_def)
qed

theorem SetActorTransformRelativeFromText_field_independent_witness:
  "RelativeRotation sample_Actor = (10, 20, 30)
   \<and> (\<exists>A'. SetActorTransformRelativeFromText sample_Host sample_Actor ''T=(1 2 3)'' = Inr A'
         \<and> RelativeLocation A' = (1, 2, 3)
         \<and> RelativeRotation A' = (10, 20, 30)
         \<and> RelativeScale3D A' = RelativeScale3D sample_Actor)
   \<and> (\<exists>A'. SetActorTransformRelativeFromText sample_Host sample_Actor ''R=(7 8 9)'' = Inr A'
         \<and> RelativeLocation A' = RelativeLocation sample_Actor
         \<and> RelativeRotation A' = (7, 8, 9)
         \<and> RelativeScale3D A' = RelativeScale3D sample_Actor)"
proof -
  have p: "GetFVECTORSpaceDelimited sample_Host ''1 2 3)'' = (1, 2, 3)"
    by code_simp
  have rot: "RelativeRotation sample_Actor = (10, 20, 30)"
    by (simp add: sample_Actor_def)
  have t: "Strfind ''R=(7 8 9)'' ''T='' = None" and s: "Strfind ''R=(7 8 9)'' ''S='' = None"
    by code_simp+
  have v: "SetActorTransformRelativeFromText sample_Host sample_Actor ''R=(7 8 9)''
      = Inr (NotifyMoved (SetActorRelativeRotation sample_Actor (7, 8, 9)))"
    by code_simp
  have first: "\<exists>A'. SetActorTransformRelativeFromText sample_Host sample_Actor ''T=(1 2 3)'' = Inr A'
         \<and> RelativeLocation A' = (1, 2, 3)
         \<and> RelativeRotation A' = (10, 20, 30)
         \<and> RelativeScale3D A' = RelativeScale3D sample_Actor"
    using SetActorTransformRelativeFromText_field_independent [of sample_Host sample_Actor]
    by (simp only: p rot)
  have second: "RelativeLocation (NotifyMoved (SetActorRelativeRotation sample_Actor (7, 8, 9)))
        = RelativeLocation sample_Actor
      \<and> RelativeScale3D (NotifyMoved (SetActorRelativeRotation sample_Actor (7, 8, 9)))
        = RelativeScale3D sample_Actor"
    using SetActorTransformRelativeFromText_field_independent
      [of sample_Host sample_Actor "''R=(7 8 9)''"] v t s
    by blast
  have "RelativeRotation (NotifyMoved (SetActorRelativeRotation sample_Actor (7, 8, 9))) = (7, 8, 9)"
    by (simp add: NotifyMoved_fields SetActorRelativeRotation_def)
  with rot first second v show ?thesis
    by blast
qed

text \<open>
  C7. Let the host's vector parser read the same vector from a text whatever follows
  the closing parenthesis. Then the texts \<open>S=(2 2 2) T=(0 0 0)\<close> and
  \<open>T=(0 0 0) S=(2 2 2)\<close> leave the actor in the same state: each marker is searched
  from the start of the text, so the order of the markers does not matter.
\<close>

theorem SetActorTransformRelativeFromText_marker_order:
  assumes "GetFVECTORSpaceDelimited h ''0 0 0) S=(2 2 2)'' = GetFVECTORSpaceDelimited h ''0 0 0)''"
    and "GetFVECTORSpaceDelimited h ''2 2 2) T=(0 0 0)'' = GetFVECTORSpaceDelimited h ''2 2 2)''"
  shows "SetActorTransformRelativeFromText h A ''S=(2 2 2) T=(0 0 0)''
           = SetActorTransformRelativeFromText h A ''T=(0 0 0) S=(2 2 2)''
       \<and> SetActorTransformRelativeFromText h A ''S=(2 2 2) T=(0 0 0)''
           = Inr (NotifyMoved (SetActorRelativeScale3D
                (SetActorRelativeLocation A (GetFVECTORSpaceDelimited h ''0 0 0)''))
                (GetFVECTORSpaceDelimited h ''2 2 2)'')))"
proof -
  have a: "Strfind ''S=(2 2 2) T=(0 0 0)'' ''T='' = Some ''T=(0 0 0)''"
    "Strfind ''S=(2 2 2) T=(0 0 0)'' ''R='' = None"
    "Strfind ''S=(2 2 2) T=(0 0 0)'' ''S='' = Some ''S=(2 2 2) T=(0 0 0)''"
    by code_simp+
  have b: "Strfind ''T=(0 0 0) S=(2 2 2)'' ''T='' = Some ''T=(0 0 0) S=(2 2 2)''"
    "Strfind ''T=(0 0 0) S=(2 2 2)'' ''R='' = None"
    "Strfind ''T=(0 0 0) S=(2 2 2)'' ''S='' = Some ''S=(2 2 2)''"
    by code_simp+
  show ?thesis
    using assms
    by (simp add: SetActorTransformRelativeFromText_def ApplyLocation_def ApplyRotation_def
        ApplyScale_def a b Skip3_def then_do_def)
qed

theorem SetActorTransformRelativeFromText_marker_order_witness:
  "SetActorTransformRelativeFromText sample_Host sample_Actor ''S=(2 2 2) T=(0 0 0)''
     = SetActorTransformRelativeFromText sample_Host sample_Actor ''T=(0 0 0) S=(2 2 2)''
   \<and> GetFVECTORSpaceDelimited sample_Host ''0 0 0) S=(2 2 2)'' = (0, 0, 0)
   \<and> GetFVECTORSpaceDelimited sample_Host ''2 2 2) T=(0 0 0)'' = (2, 2, 2)"
proof -
  have p: "GetFVECTORSpaceDelimited sample_Host ''0 0 0) S=(2 2 2)'' = (0, 0, 0)"
    "GetFVECTORSpaceDelimited sample_Host ''0 0 0)'' = (0, 0, 0)"
    "GetFVECTORSpaceDelimited sample_Host ''2 2 2) T=(0 0 0)'' = (2, 2, 2)"
    "GetFVECTORSpaceDelimited sample_Host ''2 2 2)'' = (2, 2, 2)"
    by code_simp+
  show ?thesis
    using SetActorTransformRelativeFromText_marker_order [of sample_Host sample_Actor] p
    by simp
qed

text \<open>
  C8. When none of the three markers is found in the text, the call returns, the actor
  has received the four notifications (lighting cache invalidated, moved, sub-objects
  checked, package marked dirty), in that order, and nothing else of it has changed.
\<close>

theorem SetActorTransformRelativeFromText_no_markers:
  assumes "Strfind Str ''T='' = None" and "Strfind Str ''R='' = None"
    and "Strfind Str ''S='' = None"
  shows "SetActorTransformRelativeFromText h A Str
    = Inr (A\<lparr>Notifications := Notifications A @
        [InvalidateLightingCache, PostEditMove True, CheckDefaultSubobjects,
         MarkPackageDirty]\<rparr>)"
  using assms
  by (simp add: SetActorTransformRelativeFromText_def ApplyLocation_def ApplyRotation_def
      ApplyScale_def then_do_def NotifyMoved_def Notify_def)

theorem SetActorTransformRelativeFromText_no_markers_witness:
  "SetActorTransformRelativeFromText sample_Host sample_Actor ''AT (1 2 3)''
    = Inr (sample_Actor\<lparr>Notifications :=
        [InvalidateLightingCache, PostEditMove True, CheckDefaultSubobjects,
         MarkPackageDirty]\<rparr>)"
proof -
  have e: "CHR ''='' \<notin> set ''AT (1 2 3)''"
    by simp
  have n: "Strfind ''AT (1 2 3)'' ''T='' = None" "Strfind ''AT (1 2 3)'' ''R='' = None"
    "Strfind ''AT (1 2 3)'' ''S='' = None"
    by (rule Strfind_no_equals [OF e])+
  have "Notifications sample_Actor = []"
    by (simp add: sample_Actor_def)
  with SetActorTransformRelativeFromText_no_markers [OF n, of sample_Host sample_Actor]
  show ?thesis
    by simp
qed

subsection \<open>AddNewActorFromAsset\<close>

text \<open>
  C10. \<open>AddNewActorFromAsset\<close> returns no actor exactly when the asset path does not
  resolve. When the asset resolves and the factory returns no actor, the call does not
  return: the label is set through the null pointer. When the factory returns an
  actor, that actor is returned with its label set to the text of its identifier.
\<close>

theorem AddNewActorFromAsset_unchecked_actor:
  "(AddNewActorFromAsset h AssetPath InLevel Name bSelectActor Location ObjectFlags = Inr None
      \<longleftrightarrow> GetAssetFromPath h AssetPath = None)
   \<and> (\<forall>Asset. GetAssetFromPath h AssetPath = Some Asset
          \<and> AddActorForAsset h Asset Location False bSelectActor ObjectFlags
               (if FName_eq Name NAME_None then FName_Init ''GeneratedName'' else Name) = None
        \<longrightarrow> AddNewActorFromAsset h AssetPath InLevel Name bSelectActor Location ObjectFlags
              = Inl NullDereference)
   \<and> (\<forall>Asset A. GetAssetFromPath h AssetPath = Some Asset
          \<and> AddActorForAsset h Asset Location False bSelectActor ObjectFlags
               (if FName_eq Name NAME_None then FName_Init ''GeneratedName'' else Name) = Some A
        \<longrightarrow> AddNewActorFromAsset h AssetPath InLevel Name bSelectActor Location ObjectFlags
              = Inr (Some (A\<lparr>ActorLabel := ToString (GetFName A)\<rparr>)))"
  by (auto simp: AddNewActorFromAsset_def Let_def SetActorLabel_def split: option.splits)

theorem AddNewActorFromAsset_unchecked_actor_witness:
  "AddNewActorFromAsset sample_Host ''/Game/Nothing'' () NAME_None True (4, 5, 6) 8 = Inr None
   \<and> GetAssetFromPath sample_Host ''/Game/Sounds/Hum'' = Some ''Hum''
   \<and> AddNewActorFromAsset sample_Host ''/Game/Sounds/Hum'' () NAME_None True (4, 5, 6) 8
       = Inl NullDereference
   \<and> (\<exists>A. AddNewActorFromAsset sample_Host ''/Game/Meshes/Chair'' () NAME_None True (4, 5, 6) 8
         = Inr (Some A)
       \<and> GetFName A = \<lparr>NameEntry = ''GeneratedName'', GetNumber = 0\<rparr>
       \<and> ActorLabel A = ''GeneratedName'')"
proof -
  have none: "GetAssetFromPath sample_Host ''/Game/Nothing'' = None"
    by code_simp
  have hum: "GetAssetFromPath sample_Host ''/Game/Sounds/Hum'' = Some ''Hum''"
    by code_simp
  have chair: "GetAssetFromPath sample_Host ''/Game/Meshes/Chair'' = Some ''Chair''"
    by code_simp
  have name: "(if FName_eq NAME_None NAME_None then FName_Init ''GeneratedName'' else NAME_None)
      = \<lparr>NameEntry = ''GeneratedName'', GetNumber = 0\<rparr>"
    by code_simp
  have no_actor: "AddActorForAsset sample_Host ''Hum'' (4, 5, 6) False True 8
      \<lparr>NameEntry = ''GeneratedName'', GetNumber = 0\<rparr> = None"
    by code_simp
  have actor: "AddActorForAsset sample_Host ''Chair'' (4, 5, 6) False True 8
      \<lparr>NameEntry = ''GeneratedName'', GetNumber = 0\<rparr>
      = Some \<lparr>GetFName = \<lparr>NameEntry = ''GeneratedName'', GetNumber = 0\<rparr>,
          ActorLabel = ''StaticMeshActor'', RelativeLocation = (4, 5, 6),
          RelativeRotation = (0, 0, 0), RelativeScale3D = (1, 1, 1), Notifications = []\<rparr>"
    by code_simp
  have str: "ToString \<lparr>NameEntry = ''GeneratedName'', GetNumber = 0\<rparr> = ''GeneratedName''"
    by (simp add: ToString_def)
  show ?thesis
    using AddNewActorFromAsset_unchecked_actor
        [of sample_Host "''/Game/Nothing''" "()" NAME_None True "(4, 5, 6)" 8]
      AddNewActorFromAsset_unchecked_actor
        [of sample_Host "''/Game/Sounds/Hum''" "()" NAME_None True "(4, 5, 6)" 8]
      AddNewActorFromAsset_unchecked_actor
        [of sample_Host "''/Game/Meshes/Chair''" "()" NAME_None True "(4, 5, 6)" 8]
    by (simp add: none hum chair name no_actor actor str)
qed

end
